theory Spec2Isabelle
  imports Main "HOL-Library.Sublist" "HOL-Library.Char_ord" "HOL-Library.List_Lexorder"
    "HOL-Library.Multiset"
begin

section \<open>Python strings\<close>

text \<open>
  A Python \<open>str\<close> is modelled as a \<open>string\<close> whose characters stand for the code
  points below 256.  The helpers below are the built-in methods the source calls.
\<close>

definition isspace :: "char \<Rightarrow> bool" where
  \<comment> \<open>\<open>str.isspace\<close> on one code point below 256\<close>
  "isspace c \<longleftrightarrow> c \<in> {CHR 0x09, CHR 0x0A, CHR 0x0B, CHR 0x0C, CHR 0x0D,
     CHR 0x1C, CHR 0x1D, CHR 0x1E, CHR 0x1F, CHR 0x20, CHR 0x85, CHR 0xA0}"

definition strip :: "string \<Rightarrow> string" where
  \<comment> \<open>\<open>str.strip()\<close>\<close>
  "strip s = rev (dropWhile isspace (rev (dropWhile isspace s)))"

definition lower_char :: "char \<Rightarrow> char" where
  "lower_char c =
     (let n = (of_char c :: nat)
      in if (65 \<le> n \<and> n \<le> 90) \<or> (192 \<le> n \<and> n \<le> 222 \<and> n \<noteq> 215)
         then char_of (n + 32) else c)"

definition lower :: "string \<Rightarrow> string" where
  \<comment> \<open>\<open>str.lower()\<close>\<close>
  "lower s = map lower_char s"

fun contains :: "string \<Rightarrow> string \<Rightarrow> bool" where
  \<comment> \<open>\<open>sub in s\<close>, written \<open>contains s sub\<close>\<close>
  "contains [] sub = (sub = [])"
| "contains (c # cs) sub = (prefix sub (c # cs) \<or> contains cs sub)"

definition startswith :: "string \<Rightarrow> string \<Rightarrow> bool" where
  "startswith s p = prefix p s"

definition endswith :: "string \<Rightarrow> string \<Rightarrow> bool" where
  "endswith s p = suffix p s"

fun split_eq :: "string \<Rightarrow> string \<times> string" where
  \<comment> \<open>\<open>s.split("=", 1)\<close> for an \<open>s\<close> that contains \<open>=\<close>: the text left and right of the
      first \<open>=\<close>\<close>
  "split_eq [] = ([], [])"
| "split_eq (c # cs) =
     (if c = CHR ''='' then ([], cs)
      else (case split_eq cs of (l, r) \<Rightarrow> (c # l, r)))"

section \<open>Errors\<close>

datatype error =
    NotCached
      \<comment> \<open>\<open>Exception("Repo release info is not cached. ...")\<close>; the specification's
          \<open>CatalogNotCachedError\<close>\<close>
  | GitHubAPIError int string
      \<comment> \<open>\<open>Exception(f"GitHub API error: {status_code} - {text}")\<close>; the specification's
          \<open>RemoteAPIError\<close>\<close>
  | JSONDecodeError
      \<comment> \<open>raised by \<open>response.json()\<close> on a body that is not JSON\<close>
  | KeyError string
      \<comment> \<open>\<open>asset[...]\<close> on a missing key\<close>
  | IndexError
      \<comment> \<open>\<open>[...][0]\<close> on an empty list; the specification's \<open>NoDefaultTagError\<close>\<close>
  | NoCompatibleRelease "string option"
      \<comment> \<open>\<open>RuntimeError(f'Unable to find a compatible UE4SS release for tag "{tag}"')\<close>;
          the specification's \<open>NoCompatibleAssetError\<close>\<close>

section \<open>Release catalog: data model\<close>

record ReleaseTagAssetInfo =
  file_name :: string
  download_link :: string
  asset_created_at :: string

text \<open>
  The field \<open>tag\<close> holds \<open>release.get("tag_name")\<close>, which is \<open>None\<close> for a release object
  without that key.
\<close>

record ReleaseAssetInfo =
  tag :: "string option"
  is_prerelease :: bool
  is_latest :: bool
  has_assets :: bool
  created_at :: string
  assets :: "ReleaseTagAssetInfo list"

record RepositoryReleasesInfo =
  owner :: string
  repo :: string
  tags :: "ReleaseAssetInfo list"

text \<open>The JSON objects of the release API; a key that may be absent is an option.\<close>

record json_asset =
  j_name :: "string option"
  j_browser_download_url :: "string option"
  j_asset_created_at :: "string option"

record json_release =
  j_tag_name :: "string option"
  j_prerelease :: "bool option"
  j_created_at :: "string option"
  j_assets :: "json_asset list option"

record response =
  status_code :: int
  text_body :: string
  json_body :: "json_release list option"

text \<open>
  The process: the module global \<open>cached_repo_releases_info\<close> and the log of the page
  requests sent so far (URL and page number).
\<close>

record process =
  cached_repo_releases_info :: "RepositoryReleasesInfo option"
  requests :: "(string \<times> nat) list"

type_synonym http = "string \<Rightarrow> nat \<Rightarrow> response"

section \<open>Release catalog client\<close>

definition release_url :: "string \<Rightarrow> string \<Rightarrow> string" where
  "release_url ow rp = ''https://api.github.com/repos/'' @ ow @ ''/'' @ rp @ ''/releases''"

text \<open>The \<open>while True\<close> loop of \<open>get_all_release_assets\<close>; it need not end.\<close>

partial_function (option) fetch_pages ::
  "http \<Rightarrow> string \<Rightarrow> nat \<Rightarrow> json_release list \<Rightarrow> (string \<times> nat) list
     \<Rightarrow> ((error + json_release list) \<times> (string \<times> nat) list) option" where
  "fetch_pages get url page all_releases reqs =
     (if status_code (get url page) \<noteq> 200
      then Some (Inl (GitHubAPIError (status_code (get url page)) (text_body (get url page))),
                 reqs @ [(url, page)])
      else (case json_body (get url page) of
              None \<Rightarrow> Some (Inl JSONDecodeError, reqs @ [(url, page)])
            | Some releases \<Rightarrow>
                if releases = [] then Some (Inr all_releases, reqs @ [(url, page)])
                else fetch_pages get url (page + 1) (all_releases @ releases)
                       (reqs @ [(url, page)])))"

declare fetch_pages.simps [code]

definition sort_key_of :: "json_release \<Rightarrow> string" where
  \<comment> \<open>\<open>lambda r: r.get("created_at", "")\<close>\<close>
  "sort_key_of r = (case j_created_at r of None \<Rightarrow> [] | Some c \<Rightarrow> c)"

definition sorted_reverse :: "('a \<Rightarrow> 'k::linorder) \<Rightarrow> 'a list \<Rightarrow> 'a list" where
  \<comment> \<open>\<open>sorted(xs, key=f, reverse=True)\<close>: the list is reversed, sorted by the stable
      ascending sort, and reversed again\<close>
  "sorted_reverse f xs = rev (sort_key f (rev xs))"

definition get_prerelease :: "json_release \<Rightarrow> bool" where
  \<comment> \<open>\<open>release.get("prerelease", False)\<close>\<close>
  "get_prerelease r = (case j_prerelease r of None \<Rightarrow> False | Some b \<Rightarrow> b)"

fun find_latest_tag :: "json_release list \<Rightarrow> string option" where
  \<comment> \<open>the first loop over \<open>sorted_releases\<close>; \<open>latest_tag\<close> starts as \<open>None\<close>\<close>
  "find_latest_tag [] = None"
| "find_latest_tag (r # rs) =
     (if \<not> get_prerelease r then j_tag_name r else find_latest_tag rs)"

definition build_asset :: "json_asset \<Rightarrow> error + ReleaseTagAssetInfo" where
  "build_asset a =
     (case j_name a of
        None \<Rightarrow> Inl (KeyError ''name'')
      | Some n \<Rightarrow>
          (case j_browser_download_url a of
             None \<Rightarrow> Inl (KeyError ''browser_download_url'')
           | Some u \<Rightarrow>
               (case j_asset_created_at a of
                  None \<Rightarrow> Inl (KeyError ''created_at'')
                | Some c \<Rightarrow>
                    Inr \<lparr>file_name = n, download_link = u, asset_created_at = c\<rparr>)))"

fun build_assets :: "json_asset list \<Rightarrow> error + ReleaseTagAssetInfo list" where
  "build_assets [] = Inr []"
| "build_assets (a # as) =
     (case build_asset a of
        Inl e \<Rightarrow> Inl e
      | Inr x \<Rightarrow> (case build_assets as of Inl e \<Rightarrow> Inl e | Inr xs \<Rightarrow> Inr (x # xs)))"

definition build_tag :: "string option \<Rightarrow> json_release \<Rightarrow> error + ReleaseAssetInfo" where
  \<comment> \<open>one round of the second loop over \<open>sorted_releases\<close>\<close>
  "build_tag latest_tag r =
     (case build_assets (case j_assets r of None \<Rightarrow> [] | Some l \<Rightarrow> l) of
        Inl e \<Rightarrow> Inl e
      | Inr xs \<Rightarrow>
          Inr \<lparr>tag = j_tag_name r,
               is_prerelease = get_prerelease r,
               is_latest = (j_tag_name r = latest_tag),
               has_assets = (xs \<noteq> []),
               created_at = sort_key_of r,
               assets = xs\<rparr>)"

fun build_tags :: "string option \<Rightarrow> json_release list \<Rightarrow> error + ReleaseAssetInfo list" where
  "build_tags latest_tag [] = Inr []"
| "build_tags latest_tag (r # rs) =
     (case build_tag latest_tag r of
        Inl e \<Rightarrow> Inl e
      | Inr t \<Rightarrow>
          (case build_tags latest_tag rs of Inl e \<Rightarrow> Inl e | Inr ts \<Rightarrow> Inr (t # ts)))"

definition build_catalog ::
  "string \<Rightarrow> string \<Rightarrow> json_release list \<Rightarrow> error + RepositoryReleasesInfo" where
  \<comment> \<open>\<open>get_all_release_assets\<close> after the fetch loop\<close>
  "build_catalog ow rp all_releases =
     (let sorted_releases = sorted_reverse sort_key_of all_releases
      in case build_tags (find_latest_tag sorted_releases) sorted_releases of
           Inl e \<Rightarrow> Inl e
         | Inr tag_infos \<Rightarrow> Inr \<lparr>owner = ow, repo = rp, tags = tag_infos\<rparr>)"

definition get_all_release_assets ::
  "http \<Rightarrow> string \<Rightarrow> string \<Rightarrow> (string \<times> nat) list
     \<Rightarrow> ((error + RepositoryReleasesInfo) \<times> (string \<times> nat) list) option" where
  "get_all_release_assets get ow rp reqs =
     (case fetch_pages get (release_url ow rp) 1 [] reqs of
        None \<Rightarrow> None
      | Some (Inl e, reqs') \<Rightarrow> Some (Inl e, reqs')
      | Some (Inr all_releases, reqs') \<Rightarrow> Some (build_catalog ow rp all_releases, reqs'))"

definition cache_repo_releases_info ::
  "http \<Rightarrow> string \<Rightarrow> string \<Rightarrow> process \<Rightarrow> ((error + unit) \<times> process) option" where
  "cache_repo_releases_info get ow rp s =
     (if cached_repo_releases_info s = None
      then (case get_all_release_assets get ow rp (requests s) of
              None \<Rightarrow> None
            | Some (Inl e, reqs') \<Rightarrow> Some (Inl e, s\<lparr>requests := reqs'\<rparr>)
            | Some (Inr c, reqs') \<Rightarrow>
                Some (Inr (), s\<lparr>cached_repo_releases_info := Some c, requests := reqs'\<rparr>))
      else Some (Inr (), s))"

section \<open>Release selector\<close>

fun dict_setitem :: "('k \<times> 'v) list \<Rightarrow> 'k \<Rightarrow> 'v \<Rightarrow> ('k \<times> 'v) list" where
  \<comment> \<open>\<open>d[k] = v\<close> on a Python dict, kept as the list of its items in insertion order: a
      key already present keeps its place and takes the new value\<close>
  "dict_setitem [] k v = [(k, v)]"
| "dict_setitem ((k', v') # d) k v =
     (if k' = k then (k', v) # d else (k', v') # dict_setitem d k v)"

definition asset_dict :: "ReleaseTagAssetInfo list \<Rightarrow> (string \<times> string) list" where
  \<comment> \<open>\<open>{asset.file_name: asset.download_link for asset in tag_info.assets}\<close>\<close>
  "asset_dict xs = foldl (\<lambda>d a. dict_setitem d (file_name a) (download_link a)) [] xs"

fun links_of_tag :: "ReleaseAssetInfo list \<Rightarrow> string option \<Rightarrow> (string \<times> string) list" where
  \<comment> \<open>the loop of \<open>get_file_name_to_download_links_from_tag\<close> and its final
      \<open>return {}\<close>\<close>
  "links_of_tag [] t = []"
| "links_of_tag (tag_info # rest) t =
     (if tag tag_info = t then asset_dict (assets tag_info) else links_of_tag rest t)"

definition get_file_name_to_download_links_from_tag ::
  "string option \<Rightarrow> process \<Rightarrow> error + (string \<times> string) list" where
  "get_file_name_to_download_links_from_tag t s =
     (case cached_repo_releases_info s of
        None \<Rightarrow> Inl NotCached
      | Some c \<Rightarrow> Inr (links_of_tag (tags c) t))"

definition get_all_tags_with_assets :: "process \<Rightarrow> error + string option list" where
  "get_all_tags_with_assets s =
     (case cached_repo_releases_info s of
        None \<Rightarrow> Inl NotCached
      | Some c \<Rightarrow> Inr (map tag (filter (\<lambda>tag_info. has_assets tag_info) (tags c))))"

definition get_pre_release_tags_with_assets :: "process \<Rightarrow> error + string option list" where
  "get_pre_release_tags_with_assets s =
     (case cached_repo_releases_info s of
        None \<Rightarrow> Inl NotCached
      | Some c \<Rightarrow>
          Inr (map tag (filter (\<lambda>tag_info. has_assets tag_info \<and> is_prerelease tag_info)
                          (tags c))))"

definition get_normal_release_tags_with_assets :: "process \<Rightarrow> error + string option list" where
  "get_normal_release_tags_with_assets s =
     (case cached_repo_releases_info s of
        None \<Rightarrow> Inl NotCached
      | Some c \<Rightarrow>
          Inr (map tag (filter (\<lambda>tag_info. has_assets tag_info \<and> \<not> is_prerelease tag_info)
                          (tags c))))"

definition get_default_ue4ss_version_tag :: "process \<Rightarrow> error + string option" where
  "get_default_ue4ss_version_tag s =
     (if cached_repo_releases_info s = None then Inr (Some ''latest'')
      else (case get_normal_release_tags_with_assets s of
              Inl e \<Rightarrow> Inl e
            | Inr [] \<Rightarrow> Inl IndexError
            | Inr (t # ts) \<Rightarrow> Inr t))"

definition compatible_link :: "string \<Rightarrow> bool" where
  \<comment> \<open>\<open>"ue4ss" in link.lower() and "zdev" not in link.lower()\<close>\<close>
  "compatible_link link \<longleftrightarrow>
     contains (lower link) ''ue4ss'' \<and> \<not> contains (lower link) ''zdev''"

fun next_compatible :: "string list \<Rightarrow> string option" where
  \<comment> \<open>\<open>next((link for link in values if ...), None)\<close>\<close>
  "next_compatible [] = None"
| "next_compatible (link # links) =
     (if compatible_link link then Some link else next_compatible links)"

definition select_installable_asset ::
  "string option \<Rightarrow> (string \<times> string) list \<Rightarrow> error + string" where
  \<comment> \<open>the selection in \<open>install_latest_ue4ss_to_dir\<close> and in \<open>install_ue4ss_to_dir\<close>, the
      same text in both: \<open>final_download_link\<close>, or the \<open>RuntimeError\<close> when it is \<open>None\<close>
      or empty\<close>
  "select_installable_asset t file_names_to_download_links =
     (case next_compatible (map snd file_names_to_download_links) of
        None \<Rightarrow> Inl (NoCompatibleRelease t)
      | Some final_download_link \<Rightarrow>
          if final_download_link = [] then Inl (NoCompatibleRelease t)
          else Inr final_download_link)"

section \<open>Settings file parser and writer\<close>

record ConfigEntry =
  key :: string
  "value" :: string
  comments :: "string list"

record ConfigSection =
  header :: string
  config_entries :: "ConfigEntry list"

record parse_state =
  sections :: "ConfigSection list"
  current_section :: "ConfigSection option"
  pending_comments :: "string list"

fun universal_newlines :: "string \<Rightarrow> string" where
  \<comment> \<open>reading in text mode: \<open>\r\n\<close> and \<open>\r\<close> become \<open>\n\<close>\<close>
  "universal_newlines [] = []"
| "universal_newlines (c # cs) =
     (if c = CHR 0x0D
      then (case cs of
              [] \<Rightarrow> [CHR 0x0A]
            | d # ds \<Rightarrow>
                if d = CHR 0x0A then CHR 0x0A # universal_newlines ds
                else CHR 0x0A # universal_newlines (d # ds))
      else c # universal_newlines cs)"

fun file_lines :: "string \<Rightarrow> string list" where
  \<comment> \<open>\<open>for line in file\<close>: the lines, each with its ending \<open>\n\<close> when it has one\<close>
  "file_lines [] = []"
| "file_lines (c # cs) =
     (if c = CHR 0x0A then [c] # file_lines cs
      else (case file_lines cs of [] \<Rightarrow> [[c]] | l # ls \<Rightarrow> (c # l) # ls))"

definition parse_line :: "parse_state \<Rightarrow> string \<Rightarrow> parse_state" where
  \<comment> \<open>the body of the loop of \<open>parse_ue4ss_settings_file\<close>\<close>
  "parse_line st line =
     (let stripped = strip line
      in if stripped = [] then st
         else if startswith stripped ''['' \<and> endswith stripped '']'' then
           \<lparr>sections = (case current_section st of
                          None \<Rightarrow> sections st
                        | Some c \<Rightarrow> sections st @ [c]),
            current_section = Some \<lparr>header = stripped, config_entries = []\<rparr>,
            pending_comments = []\<rparr>
         else if startswith stripped '';'' then
           st\<lparr>pending_comments := pending_comments st @ [stripped]\<rparr>
         else if contains stripped ''='' then
           (let cur = (case current_section st of
                         None \<Rightarrow> \<lparr>header = [], config_entries = []\<rparr>
                       | Some c \<Rightarrow> c);
                entry = \<lparr>key = strip (fst (split_eq stripped)),
                         value = strip (snd (split_eq stripped)),
                         comments = pending_comments st\<rparr>
            in st\<lparr>current_section := Some (cur\<lparr>config_entries := config_entries cur @ [entry]\<rparr>),
                  pending_comments := []\<rparr>)
         else st\<lparr>pending_comments := pending_comments st @ [stripped]\<rparr>)"

definition parse_start :: parse_state where
  "parse_start = \<lparr>sections = [], current_section = None, pending_comments = []\<rparr>"

definition parse_finish :: "parse_state \<Rightarrow> ConfigSection list" where
  \<comment> \<open>\<open>if current_section: sections.append(current_section)\<close>, then \<open>return sections\<close>\<close>
  "parse_finish st =
     (case current_section st of None \<Rightarrow> sections st | Some c \<Rightarrow> sections st @ [c])"

definition parse_lines :: "string list \<Rightarrow> ConfigSection list" where
  "parse_lines ls = parse_finish (foldl parse_line parse_start ls)"

definition parse_ue4ss_settings_file :: "string \<Rightarrow> ConfigSection list" where
  \<comment> \<open>the argument is the content of the file at \<open>filepath\<close>\<close>
  "parse_ue4ss_settings_file content = parse_lines (file_lines (universal_newlines content))"

definition write_entry :: "ConfigEntry \<Rightarrow> string" where
  "write_entry entry =
     concat (map (\<lambda>comment. comment @ [CHR 0x0A]) (comments entry))
       @ key entry @ '' = '' @ value entry @ [CHR 0x0A]"

definition write_section :: "ConfigSection \<Rightarrow> string" where
  "write_section section =
     (if header section \<noteq> [] then header section @ [CHR 0x0A] else [])
       @ concat (map write_entry (config_entries section)) @ [CHR 0x0A]"

fun newline_out :: "string \<Rightarrow> string \<Rightarrow> string" where
  \<comment> \<open>writing in text mode: each \<open>\n\<close> becomes \<open>os.linesep\<close>\<close>
  "newline_out linesep [] = []"
| "newline_out linesep (c # cs) =
     (if c = CHR 0x0A then linesep @ newline_out linesep cs else c # newline_out linesep cs)"

definition write_ue4ss_settings_file :: "string \<Rightarrow> ConfigSection list \<Rightarrow> string" where
  \<comment> \<open>the content of the file at \<open>filepath\<close> after the call; \<open>linesep\<close> is \<open>os.linesep\<close>\<close>
  "write_ue4ss_settings_file linesep secs = newline_out linesep (concat (map write_section secs))"

section \<open>Auxiliary notions and sample data\<close>

definition built_from :: "json_release \<Rightarrow> ReleaseAssetInfo \<Rightarrow> bool" where
  \<comment> \<open>the tag entry \<open>t\<close> carries the data of the release object \<open>r\<close>\<close>
  "built_from r t \<longleftrightarrow>
     tag t = j_tag_name r \<and> is_prerelease t = get_prerelease r
       \<and> created_at t = sort_key_of r
       \<and> build_assets (case j_assets r of None \<Rightarrow> [] | Some l \<Rightarrow> l) = Inr (assets t)
       \<and> has_assets t = (assets t \<noteq> [])"

definition asset_of :: "string \<Rightarrow> string \<Rightarrow> json_asset" where
  "asset_of n u =
     \<lparr>j_name = Some n, j_browser_download_url = Some u, j_asset_created_at = Some ''2023''\<rparr>"

definition release_of :: "string \<Rightarrow> bool \<Rightarrow> string \<Rightarrow> json_asset list \<Rightarrow> json_release" where
  "release_of t p c as =
     \<lparr>j_tag_name = Some t, j_prerelease = Some p, j_created_at = Some c, j_assets = Some as\<rparr>"

definition ok_response :: "json_release list \<Rightarrow> response" where
  "ok_response rs = \<lparr>status_code = 200, text_body = [], json_body = Some rs\<rparr>"

definition example_releases :: "json_release list" where
  "example_releases =
     [release_of ''v1'' False ''2023''
        [asset_of ''UE4SS_v1.zip'' ''http://x/ue4ss_v1.zip'',
         asset_of ''UE4SS_zDEV_v1.zip'' ''http://x/ue4ss_zdev_v1.zip''],
      release_of ''v2'' True ''2024'' [],
      release_of ''v1.5'' False ''2023'' []]"

definition example_http :: http where
  "example_http url page = (if page = 1 then ok_response example_releases else ok_response [])"

definition example_requests :: "(string \<times> nat) list" where
  "example_requests = [(release_url ''o'' ''r'', 1), (release_url ''o'' ''r'', 2)]"

definition example_catalog :: RepositoryReleasesInfo where
  "example_catalog =
     \<lparr>owner = ''o'', repo = ''r'',
      tags =
        [\<lparr>tag = Some ''v2'', is_prerelease = True, is_latest = False, has_assets = False,
          created_at = ''2024'', assets = []\<rparr>,
         \<lparr>tag = Some ''v1'', is_prerelease = False, is_latest = True, has_assets = True,
          created_at = ''2023'',
          assets =
            [\<lparr>file_name = ''UE4SS_v1.zip'', download_link = ''http://x/ue4ss_v1.zip'',
              asset_created_at = ''2023''\<rparr>,
             \<lparr>file_name = ''UE4SS_zDEV_v1.zip'', download_link = ''http://x/ue4ss_zdev_v1.zip'',
              asset_created_at = ''2023''\<rparr>]\<rparr>,
         \<lparr>tag = Some ''v1.5'', is_prerelease = False, is_latest = False, has_assets = False,
          created_at = ''2023'', assets = []\<rparr>]\<rparr>"

definition example_process :: process where
  "example_process =
     \<lparr>cached_repo_releases_info = Some example_catalog, requests = example_requests\<rparr>"

definition fresh_process :: process where
  "fresh_process = \<lparr>cached_repo_releases_info = None, requests = []\<rparr>"

definition duplicate_http :: http where
  \<comment> \<open>two release objects with the same tag name\<close>
  "duplicate_http url page =
     (if page = 1
      then ok_response [release_of ''v1'' False ''2023'' [], release_of ''v1'' False ''2023'' []]
      else ok_response [])"

definition duplicate_catalog :: RepositoryReleasesInfo where
  "duplicate_catalog =
     \<lparr>owner = ''o'', repo = ''r'',
      tags =
        [\<lparr>tag = Some ''v1'', is_prerelease = False, is_latest = True, has_assets = False,
          created_at = ''2023'', assets = []\<rparr>,
         \<lparr>tag = Some ''v1'', is_prerelease = False, is_latest = True, has_assets = False,
          created_at = ''2023'', assets = []\<rparr>]\<rparr>"

definition failing_http :: http where
  \<comment> \<open>the second page request is answered with status 503\<close>
  "failing_http url page =
     (if page = 1 then ok_response example_releases
      else \<lparr>status_code = 503, text_body = ''unavailable'', json_body = None\<rparr>)"

section \<open>Asset selection\<close>

lemma contains_iff_sublist: "contains s sub \<longleftrightarrow> sublist sub s"
  by (induction s) (auto simp: sublist_Cons_right)

lemma next_compatible_find: "next_compatible ls = List.find compatible_link ls"
  by (induction ls) auto

lemma compatible_link_sublist:
  "compatible_link x \<longleftrightarrow> sublist ''ue4ss'' (lower x) \<and> \<not> sublist ''zdev'' (lower x)"
  by (simp add: compatible_link_def contains_iff_sublist)

lemma compatible_link_nonempty: "compatible_link x \<Longrightarrow> x \<noteq> []"
  by (auto simp: compatible_link_def lower_def)

text \<open>
  Claim C1.  The selection returns the download link of the first item of the asset map, in
  the order of the map, whose lower-cased link contains \<open>ue4ss\<close> and does not contain
  \<open>zdev\<close>; it fails with the error naming the tag exactly when no item qualifies.
\<close>

theorem select_installable_asset_first:
  "(select_installable_asset t d = Inr l \<longleftrightarrow>
      (\<exists>i<length d. snd (d ! i) = l
          \<and> sublist ''ue4ss'' (lower l) \<and> \<not> sublist ''zdev'' (lower l)
          \<and> (\<forall>j<i. \<not> (sublist ''ue4ss'' (lower (snd (d ! j)))
                       \<and> \<not> sublist ''zdev'' (lower (snd (d ! j)))))))
   \<and> (select_installable_asset t d = Inl e \<longleftrightarrow>
      e = NoCompatibleRelease t
        \<and> (\<forall>i<length d. \<not> (sublist ''ue4ss'' (lower (snd (d ! i)))
                       \<and> \<not> sublist ''zdev'' (lower (snd (d ! i))))))"
proof (cases "List.find compatible_link (map snd d)")
  case None
  then have "\<forall>i<length d. \<not> compatible_link (snd (d ! i))"
    by (auto simp: find_None_iff)
  with None show ?thesis
    by (auto simp add: select_installable_asset_def next_compatible_find
        compatible_link_sublist)
next
  case (Some x)
  then have "compatible_link x" by (auto simp: find_Some_iff)
  then have "x \<noteq> []" by (rule compatible_link_nonempty)
  with Some show ?thesis
    apply (simp add: select_installable_asset_def next_compatible_find)
    apply (auto simp: find_Some_iff compatible_link_sublist)
    apply (metis linorder_neqE_nat)
    done
qed

theorem select_installable_asset_first_witness:
  "select_installable_asset (Some ''v1'')
     [(''UE4SS_zDEV_v1.zip'', ''http://x/ue4ss_zdev_v1.zip''),
      (''UE4SS_v1.zip'', ''http://x/ue4ss_v1.zip'')] = Inr ''http://x/ue4ss_v1.zip''
   \<and> select_installable_asset (Some ''v1'') [(''notes.txt'', ''http://x/notes.txt'')]
       = Inl (NoCompatibleRelease (Some ''v1''))"
  using select_installable_asset_first [of "Some ''v1''"
      "[(''UE4SS_zDEV_v1.zip'', ''http://x/ue4ss_zdev_v1.zip''),
        (''UE4SS_v1.zip'', ''http://x/ue4ss_v1.zip'')]" "''http://x/ue4ss_v1.zip''"]
    select_installable_asset_first [of "Some ''v1''" "[(''notes.txt'', ''http://x/notes.txt'')]"
      _ "NoCompatibleRelease (Some ''v1'')"]
  by (simp add: select_installable_asset_def compatible_link_def lower_def lower_char_def)

section \<open>Catalog client\<close>

lemma example_fetched:
  "fetch_pages example_http (release_url ''o'' ''r'') 1 [] [] =
     Some (Inr example_releases, example_requests)"
  by (simp add: fetch_pages.simps example_http_def ok_response_def example_releases_def
      example_requests_def)

lemma example_built: "build_catalog ''o'' ''r'' example_releases = Inr example_catalog"
  by (simp add: build_catalog_def sorted_reverse_def sort_key_of_def build_tag_def
      build_asset_def get_prerelease_def example_releases_def release_of_def asset_of_def
      example_catalog_def)

lemma example_catalog_built:
  "get_all_release_assets example_http ''o'' ''r'' [] = Some (Inr example_catalog, example_requests)"
  unfolding get_all_release_assets_def example_fetched by (simp add: example_built)

lemma fetch_pages_fail:
  assumes "page \<le> n"
    and "\<forall>p. page \<le> p \<and> p < n \<longrightarrow>
           status_code (get url p) = 200 \<and> (\<exists>rs. json_body (get url p) = Some rs \<and> rs \<noteq> [])"
    and "status_code (get url n) \<noteq> 200"
  shows "fetch_pages get url page acc reqs =
           Some (Inl (GitHubAPIError (status_code (get url n)) (text_body (get url n))),
                 reqs @ map (Pair url) [page..<Suc n])"
  using assms
proof (induction "n - page" arbitrary: page acc reqs)
  case 0
  then have "page = n" by simp
  with 0 show ?case by (subst fetch_pages.simps) simp
next
  case (Suc k)
  then have lt: "page < n" by simp
  with Suc.prems obtain rs where ok: "status_code (get url page) = 200"
    "json_body (get url page) = Some rs" "rs \<noteq> []" by auto
  have step: "fetch_pages get url page acc reqs =
      fetch_pages get url (page + 1) (acc @ rs) (reqs @ [(url, page)])"
    by (subst fetch_pages.simps) (simp add: ok)
  have "fetch_pages get url (page + 1) (acc @ rs) (reqs @ [(url, page)]) =
      Some (Inl (GitHubAPIError (status_code (get url n)) (text_body (get url n))),
            (reqs @ [(url, page)]) @ map (Pair url) [page + 1..<Suc n])"
    using Suc.hyps(2) Suc.prems lt by (intro Suc.hyps(1)) auto
  moreover have "[page..<Suc n] = page # [page + 1..<Suc n]"
    using lt by (simp add: upt_conv_Cons)
  ultimately show ?case by (simp add: step)
qed

text \<open>
  Claim C6.  On a process whose catalog is populated, \<open>cache_repo_releases_info\<close> returns
  with the process unchanged, for every owner and repository name and every server: the
  catalog held is the same and no page request is added to the log.
\<close>

theorem cache_populated_noop:
  "cache_repo_releases_info get ow rp \<lparr>cached_repo_releases_info = Some c, requests = reqs\<rparr> =
     Some (Inr (), \<lparr>cached_repo_releases_info = Some c, requests = reqs\<rparr>)"
  by (simp add: cache_repo_releases_info_def)

text \<open>
  Claim C7.  Let the catalog be unset and let page request \<open>n\<close> be the first one answered
  with a status other than 200, the pages before it being non-empty successes.  Then
  \<open>cache_repo_releases_info\<close> returns the API error carrying that status and body, the
  catalog is still unset, and the log holds the page requests 1 to \<open>n\<close>.
\<close>

theorem cache_failure_atomic:
  assumes "cached_repo_releases_info s = None"
    and "1 \<le> n"
    and "\<forall>p. 1 \<le> p \<and> p < n \<longrightarrow>
           status_code (get (release_url ow rp) p) = 200
             \<and> (\<exists>rs. json_body (get (release_url ow rp) p) = Some rs \<and> rs \<noteq> [])"
    and "status_code (get (release_url ow rp) n) \<noteq> 200"
  shows "cache_repo_releases_info get ow rp s =
           Some (Inl (GitHubAPIError (status_code (get (release_url ow rp) n))
                        (text_body (get (release_url ow rp) n))),
                 s\<lparr>requests := requests s @ map (Pair (release_url ow rp)) [1..<Suc n]\<rparr>)
         \<and> cached_repo_releases_info
             (s\<lparr>requests := requests s @ map (Pair (release_url ow rp)) [1..<Suc n]\<rparr>) = None"
  using fetch_pages_fail [where page = 1 and n = n and get = get and url = "release_url ow rp"
      and acc = "[]" and reqs = "requests s"] assms
  by (simp add: cache_repo_releases_info_def get_all_release_assets_def)

theorem cache_failure_atomic_witness:
  "cache_repo_releases_info failing_http ''o'' ''r'' fresh_process =
     Some (Inl (GitHubAPIError 503 ''unavailable''),
           \<lparr>cached_repo_releases_info = None, requests = example_requests\<rparr>)"
  using cache_failure_atomic [of fresh_process 2 failing_http "''o''" "''r''"]
  by (simp add: failing_http_def ok_response_def example_releases_def fresh_process_def
      example_requests_def numeral_2_eq_2 upt_rec)

section \<open>Catalog contents\<close>

lemma build_tags_list_all2:
  "build_tags lt rs = Inr ts \<Longrightarrow> list_all2 (\<lambda>r t. build_tag lt r = Inr t) rs ts"
  by (induction rs arbitrary: ts) (auto split: sum.splits)

lemma build_tag_fields:
  "build_tag lt r = Inr t \<Longrightarrow> built_from r t \<and> is_latest t = (j_tag_name r = lt)"
  by (auto simp: build_tag_def built_from_def split: sum.splits)

lemma build_catalog_tags:
  assumes "build_catalog ow rp all_releases = Inr c"
  shows "list_all2 (\<lambda>r t. built_from r t
            \<and> is_latest t = (j_tag_name r = find_latest_tag (sorted_reverse sort_key_of all_releases)))
          (sorted_reverse sort_key_of all_releases) (tags c)"
proof -
  let ?srt = "sorted_reverse sort_key_of all_releases"
  from assms obtain ts where ts: "build_tags (find_latest_tag ?srt) ?srt = Inr ts" "tags c = ts"
    by (auto simp: build_catalog_def Let_def split: sum.splits)
  from build_tags_list_all2 [OF ts(1)] show ?thesis
    unfolding ts(2) by (rule list_all2_mono) (simp add: build_tag_fields)
qed

lemma get_all_release_assets_Inr:
  assumes "get_all_release_assets get ow rp reqs = Some (Inr c, reqs')"
  shows "\<exists>all_releases. fetch_pages get (release_url ow rp) 1 [] reqs = Some (Inr all_releases, reqs')
           \<and> build_catalog ow rp all_releases = Inr c"
  using assms
  by (auto simp: get_all_release_assets_def split: option.splits sum.splits prod.splits)

lemma find_latest_tag_find:
  "find_latest_tag rs =
     (case List.find (\<lambda>r. \<not> get_prerelease r) rs of None \<Rightarrow> None | Some r \<Rightarrow> j_tag_name r)"
  by (induction rs) auto

lemma latest_unique:
  assumes d: "distinct (map j_tag_name rs)" and n: "None \<notin> set (map j_tag_name rs)"
    and i: "i < length rs"
  shows "(j_tag_name (rs ! i) = find_latest_tag rs)
           \<longleftrightarrow> (\<not> get_prerelease (rs ! i) \<and> (\<forall>j<i. get_prerelease (rs ! j)))"
proof (cases "List.find (\<lambda>r. \<not> get_prerelease r) rs")
  case None
  then have "\<forall>r\<in>set rs. get_prerelease r" by (auto simp: find_None_iff)
  moreover have "j_tag_name (rs ! i) \<noteq> None" using n i by (metis length_map nth_map nth_mem)
  ultimately show ?thesis using None i by (auto simp: find_latest_tag_find)
next
  case (Some r)
  then obtain m where m: "m < length rs" "\<not> get_prerelease (rs ! m)" "r = rs ! m"
    "\<forall>j<m. get_prerelease (rs ! j)" by (auto simp: find_Some_iff)
  have "(j_tag_name (rs ! i) = j_tag_name (rs ! m)) \<longleftrightarrow> i = m"
    using d i m(1) by (metis length_map nth_eq_iff_index_eq nth_map)
  moreover have "(\<not> get_prerelease (rs ! i) \<and> (\<forall>j<i. get_prerelease (rs ! j))) \<longleftrightarrow> i = m"
    using m by (metis linorder_neqE_nat)
  ultimately show ?thesis using Some m(3) by (simp add: find_latest_tag_find)
qed

lemma mset_sorted_reverse: "mset (sorted_reverse f xs) = mset xs"
  by (simp add: sorted_reverse_def)

lemma sorted_reverse_stable:
  "filter (\<lambda>y. f y = k) (sorted_reverse f xs) = filter (\<lambda>y. f y = k) xs"
  by (simp add: sorted_reverse_def rev_filter [symmetric] sort_key_stable)

lemma sorted_reverse_sorted: "sorted (rev (map f (sorted_reverse f xs)))"
  by (simp add: sorted_reverse_def rev_map [symmetric])

lemma list_all2_filter:
  "list_all2 R xs ys \<Longrightarrow> (\<And>x y. R x y \<Longrightarrow> P x = Q y)
     \<Longrightarrow> list_all2 R (filter P xs) (filter Q ys)"
  by (induction rule: list_all2_induct) auto

text \<open>
  Claim C2, as stated: in every catalog built from release pages at most one tag has
  \<open>is_latest\<close>.  Two release objects with the same tag name, neither a prerelease, give a
  catalog in which both tags have \<open>is_latest\<close>.
\<close>

theorem is_latest_duplicate_tags:
  "get_all_release_assets duplicate_http ''o'' ''r'' [] =
     Some (Inr duplicate_catalog, example_requests)
   \<and> length (filter is_latest (tags duplicate_catalog)) = 2"
  by (simp add: get_all_release_assets_def fetch_pages.simps duplicate_http_def ok_response_def
      release_of_def build_catalog_def sorted_reverse_def sort_key_of_def build_tag_def
      get_prerelease_def duplicate_catalog_def example_requests_def)

text \<open>
  Claim C2, amended.  When every fetched release object has a tag name and the tag names are
  pairwise distinct, a tag of the catalog has \<open>is_latest\<close> exactly when it is not a
  prerelease and every tag before it in the catalog is one: the first tag, in catalog
  order, that is not a prerelease, and no other.
\<close>

theorem is_latest_first_normal:
  assumes f: "fetch_pages get (release_url ow rp) 1 [] reqs = Some (Inr all_releases, reqs')"
    and d: "distinct (map j_tag_name all_releases)"
    and n: "None \<notin> set (map j_tag_name all_releases)"
    and g: "get_all_release_assets get ow rp reqs = Some (Inr c, reqs'')"
    and i: "i < length (tags c)"
  shows "is_latest (tags c ! i)
           \<longleftrightarrow> (\<not> is_prerelease (tags c ! i) \<and> (\<forall>j<i. is_prerelease (tags c ! j)))"
proof -
  let ?srt = "sorted_reverse sort_key_of all_releases"
  from g f have b: "build_catalog ow rp all_releases = Inr c"
    by (simp add: get_all_release_assets_def)
  note l = build_catalog_tags [OF b]
  have len: "length ?srt = length (tags c)" using l by (rule list_all2_lengthD)
  have nth: "built_from (?srt ! j) (tags c ! j)
      \<and> is_latest (tags c ! j) = (j_tag_name (?srt ! j) = find_latest_tag ?srt)"
    if "j < length (tags c)" for j
    using l that len by (simp add: list_all2_conv_all_nth)
  have pre: "is_prerelease (tags c ! j) = get_prerelease (?srt ! j)" if "j < length (tags c)" for j
    using nth [OF that] by (simp add: built_from_def)
  have "mset (map j_tag_name ?srt) = mset (map j_tag_name all_releases)"
    by (simp add: mset_sorted_reverse)
  then have d': "distinct (map j_tag_name ?srt)" and n': "None \<notin> set (map j_tag_name ?srt)"
    using d n by (metis mset_eq_imp_distinct_iff, metis mset_eq_setD)
  have "is_latest (tags c ! i) = (j_tag_name (?srt ! i) = find_latest_tag ?srt)"
    using nth [OF i] by simp
  also have "\<dots> \<longleftrightarrow> (\<not> get_prerelease (?srt ! i) \<and> (\<forall>j<i. get_prerelease (?srt ! j)))"
    using latest_unique [OF d' n'] i len by simp
  also have "\<dots> \<longleftrightarrow> (\<not> is_prerelease (tags c ! i) \<and> (\<forall>j<i. is_prerelease (tags c ! j)))"
    using i by (simp add: pre)
  finally show ?thesis .
qed

theorem is_latest_first_normal_witness:
  "fetch_pages example_http (release_url ''o'' ''r'') 1 [] [] =
     Some (Inr example_releases, example_requests)
   \<and> distinct (map j_tag_name example_releases)
   \<and> None \<notin> set (map j_tag_name example_releases)
   \<and> get_all_release_assets example_http ''o'' ''r'' [] =
       Some (Inr example_catalog, example_requests)
   \<and> (1::nat) < length (tags example_catalog)
   \<and> is_latest (tags example_catalog ! 1)
   \<and> \<not> is_prerelease (tags example_catalog ! 1)
   \<and> is_prerelease (tags example_catalog ! 0)"
proof -
  have d: "distinct (map j_tag_name example_releases)"
    and n: "None \<notin> set (map j_tag_name example_releases)"
    by (simp_all add: example_releases_def release_of_def)
  have i: "(1::nat) < length (tags example_catalog)"
    by (simp add: example_catalog_def)
  have "is_latest (tags example_catalog ! 1)" by (simp add: example_catalog_def)
  with is_latest_first_normal [OF example_fetched d n example_catalog_built i]
  have "is_latest (tags example_catalog ! 1) \<and> \<not> is_prerelease (tags example_catalog ! 1)
      \<and> is_prerelease (tags example_catalog ! 0)" by simp
  with d n i example_fetched example_catalog_built show ?thesis
    by simp
qed

text \<open>
  Claim C8.  The tags of a catalog built from the fetched release objects are in
  non-increasing order of \<open>created_at\<close>, and for each timestamp the tags carrying it are
  the entries built from the fetched objects with that timestamp, in the order fetched.
\<close>

theorem tags_sorted_stable:
  assumes "get_all_release_assets get ow rp reqs = Some (Inr c, reqs')"
  shows "\<exists>all_releases.
           fetch_pages get (release_url ow rp) 1 [] reqs = Some (Inr all_releases, reqs')
         \<and> sorted_wrt (\<lambda>a b. created_at b \<le> created_at a) (tags c)
         \<and> (\<forall>k. list_all2 built_from
                   (filter (\<lambda>r. sort_key_of r = k) all_releases)
                   (filter (\<lambda>t. created_at t = k) (tags c)))"
proof -
  from get_all_release_assets_Inr [OF assms] obtain all_releases where
    f: "fetch_pages get (release_url ow rp) 1 [] reqs = Some (Inr all_releases, reqs')"
    and b: "build_catalog ow rp all_releases = Inr c" by blast
  let ?srt = "sorted_reverse sort_key_of all_releases"
  have l: "list_all2 built_from ?srt (tags c)"
    using build_catalog_tags [OF b] by (rule list_all2_mono) simp
  have keys: "map created_at (tags c) = map sort_key_of ?srt"
    using l by (induction rule: list_all2_induct) (auto simp: built_from_def)
  have "sorted (rev (map created_at (tags c)))"
    unfolding keys by (rule sorted_reverse_sorted)
  then have s: "sorted_wrt (\<lambda>a b. created_at b \<le> created_at a) (tags c)"
    by (simp add: sorted_wrt_rev sorted_wrt_map rev_map [symmetric])
  have st: "list_all2 built_from (filter (\<lambda>r. sort_key_of r = k) all_releases)
       (filter (\<lambda>t. created_at t = k) (tags c))" for k
  proof -
    have "list_all2 built_from (filter (\<lambda>r. sort_key_of r = k) ?srt)
       (filter (\<lambda>t. created_at t = k) (tags c))"
      using l by (rule list_all2_filter) (simp add: built_from_def)
    then show ?thesis by (simp add: sorted_reverse_stable)
  qed
  from f s st show ?thesis by blast
qed

theorem tags_sorted_stable_witness:
  "get_all_release_assets example_http ''o'' ''r'' [] =
     Some (Inr example_catalog, example_requests)
   \<and> map created_at (tags example_catalog) = [''2024'', ''2023'', ''2023'']
   \<and> map tag (filter (\<lambda>t. created_at t = ''2023'') (tags example_catalog))
       = map j_tag_name (filter (\<lambda>r. sort_key_of r = ''2023'') example_releases)"
proof -
  from tags_sorted_stable [OF example_catalog_built] obtain all_releases where
    "fetch_pages example_http (release_url ''o'' ''r'') 1 [] [] =
       Some (Inr all_releases, example_requests)"
    and st: "list_all2 built_from (filter (\<lambda>r. sort_key_of r = ''2023'') all_releases)
       (filter (\<lambda>t. created_at t = ''2023'') (tags example_catalog))"
    by blast
  then have "all_releases = example_releases" using example_fetched by simp
  with st have "map tag (filter (\<lambda>t. created_at t = ''2023'') (tags example_catalog))
       = map j_tag_name (filter (\<lambda>r. sort_key_of r = ''2023'') example_releases)"
    by (simp add: example_catalog_def example_releases_def release_of_def sort_key_of_def
        built_from_def)
  moreover have "map created_at (tags example_catalog) = [''2024'', ''2023'', ''2023'']"
    by (simp add: example_catalog_def)
  ultimately show ?thesis using example_catalog_built by simp
qed

section \<open>Release selector\<close>

text \<open>
  Claim C4.  With the catalog populated, \<open>get_normal_release_tags_with_assets\<close> returns a
  list; \<open>get_default_ue4ss_version_tag\<close> returns its first element, or fails with the
  index error when the list is empty, which is when the catalog has no tag that has assets
  and is not a prerelease.
\<close>

theorem default_tag_first_normal:
  assumes "cached_repo_releases_info s = Some c"
  shows "\<exists>ts. get_normal_release_tags_with_assets s = Inr ts
           \<and> get_default_ue4ss_version_tag s = (if ts = [] then Inl IndexError else Inr (hd ts))
           \<and> (ts = [] \<longleftrightarrow> \<not> (\<exists>t \<in> set (tags c). has_assets t \<and> \<not> is_prerelease t))"
  using assms
  by (auto simp: get_default_ue4ss_version_tag_def get_normal_release_tags_with_assets_def
      filter_empty_conv split: list.splits)

theorem default_tag_first_normal_witness:
  "cached_repo_releases_info example_process = Some example_catalog
   \<and> get_normal_release_tags_with_assets example_process = Inr [Some ''v1'']
   \<and> get_default_ue4ss_version_tag example_process = Inr (Some ''v1'')
   \<and> get_default_ue4ss_version_tag
       \<lparr>cached_repo_releases_info = Some duplicate_catalog, requests = []\<rparr> = Inl IndexError"
  using default_tag_first_normal [of example_process example_catalog]
    default_tag_first_normal
      [of "\<lparr>cached_repo_releases_info = Some duplicate_catalog, requests = []\<rparr>" duplicate_catalog]
  by (simp add: example_process_def example_catalog_def duplicate_catalog_def
      get_default_ue4ss_version_tag_def get_normal_release_tags_with_assets_def)

text \<open>
  Claim C5, as stated: every selector operation fails with the not-cached error while the
  catalog is unset.  \<open>get_default_ue4ss_version_tag\<close> does not fail there.
\<close>

theorem default_tag_uncached_returns:
  "get_default_ue4ss_version_tag fresh_process \<noteq> Inl NotCached"
  by (simp add: get_default_ue4ss_version_tag_def fresh_process_def)

text \<open>
  Claim C5, amended.  While the catalog is unset, the three tag listings and the asset map
  of a tag fail with the not-cached error, and \<open>get_default_ue4ss_version_tag\<close> returns the
  string \<open>latest\<close>.
\<close>

theorem selectors_uncached:
  assumes "cached_repo_releases_info s = None"
  shows "get_all_tags_with_assets s = Inl NotCached
       \<and> get_pre_release_tags_with_assets s = Inl NotCached
       \<and> get_normal_release_tags_with_assets s = Inl NotCached
       \<and> get_file_name_to_download_links_from_tag t s = Inl NotCached
       \<and> get_default_ue4ss_version_tag s = Inr (Some ''latest'')"
  using assms
  by (simp add: get_all_tags_with_assets_def get_pre_release_tags_with_assets_def
      get_normal_release_tags_with_assets_def get_file_name_to_download_links_from_tag_def
      get_default_ue4ss_version_tag_def)

theorem selectors_uncached_witness:
  "cached_repo_releases_info fresh_process = None
   \<and> get_all_tags_with_assets fresh_process = Inl NotCached
   \<and> get_pre_release_tags_with_assets fresh_process = Inl NotCached
   \<and> get_normal_release_tags_with_assets fresh_process = Inl NotCached
   \<and> get_file_name_to_download_links_from_tag (Some ''v1'') fresh_process = Inl NotCached
   \<and> get_default_ue4ss_version_tag fresh_process = Inr (Some ''latest'')"
  using selectors_uncached [of fresh_process "Some ''v1''"]
  by (simp add: fresh_process_def)

end
